theory Spec2Isabelle
  imports Main "HOL-Library.AList"
begin

section \<open>hatcog: the connection layer to IRC servers\<close>

text \<open>
  The repository holds the connection layer of an IRC gateway in two files: the later
  one defines \<^verbatim>\<open>ExternalManager\<close> and \<^verbatim>\<open>External\<close>, the earlier one
  (\<^verbatim>\<open>hatcogd/external.go\<close>) an \<^verbatim>\<open>External\<close> that also registers with the
  server. Go strings and byte slices are sequences of bytes; both are modelled as
  \<^typ>\<open>string\<close>, whose characters are exactly the 256 byte values.
\<close>

subsection \<open>UTF-8, as the Go library functions used by \<^verbatim>\<open>toUnicode\<close> define it\<close>

text \<open>
  A rune is Go's \<^verbatim>\<open>int32\<close> code point; \<^verbatim>\<open>rune(val)\<close> widens a byte, so no
  wrap-around can occur and runes are modelled as integers.
\<close>

type_synonym rune = int

definition rune :: "char \<Rightarrow> rune" where
  "rune val = of_char val"

text \<open>The encoding of U+FFFD, which Go writes for a rune that is no code point.\<close>

definition RuneError :: string where
  "RuneError = [CHR 0xEF, CHR 0xBF, CHR 0xBD]"

text \<open>\<^verbatim>\<open>utf8.EncodeRune\<close>: the UTF-8 bytes of one rune, one to four of them.\<close>

definition EncodeRune :: "rune \<Rightarrow> string" where
  "EncodeRune r =
     (if r < 0 \<or> 0x10FFFF < r \<or> (0xD800 \<le> r \<and> r \<le> 0xDFFF) then RuneError
      else if r \<le> 0x7F then [char_of r]
      else if r \<le> 0x7FF then [char_of (0xC0 + r div 64), char_of (0x80 + r mod 64)]
      else if r \<le> 0xFFFF then
        [char_of (0xE0 + r div 4096), char_of (0x80 + r div 64 mod 64),
         char_of (0x80 + r mod 64)]
      else
        [char_of (0xF0 + r div 262144), char_of (0x80 + r div 4096 mod 64),
         char_of (0x80 + r div 64 mod 64), char_of (0x80 + r mod 64)])"

text \<open>The conversion \<^verbatim>\<open>string(runes)\<close> of a rune slice: the encodings, concatenated.\<close>

definition string_of_runes :: "rune list \<Rightarrow> string" where
  "string_of_runes runes = concat (map EncodeRune runes)"

text \<open>A continuation byte lies in 0x80..0xBF and carries six bits.\<close>

definition cont :: "char \<Rightarrow> bool" where
  "cont c \<longleftrightarrow> 0x80 \<le> (of_char c :: int) \<and> (of_char c :: int) \<le> 0xBF"

definition tail6 :: "char \<Rightarrow> int" where
  "tail6 c = of_char c - 0x80"

text \<open>
  \<^verbatim>\<open>utf8.DecodeRune\<close> on well-formed input: the first rune and the number of bytes it
  takes; \<open>None\<close> where Go reports an encoding error (a stray continuation byte, an
  overlong form, a surrogate, a value above U+10FFFF, a truncated sequence).
\<close>

fun DecodeRune :: "string \<Rightarrow> (rune \<times> nat) option" where
  "DecodeRune [] = None"
| "DecodeRune (c0 # cs) =
     (let x = (of_char c0 :: int) in
      if x < 0x80 then Some (x, 1)
      else if x < 0xC2 then None
      else if x < 0xE0 then
        (case cs of
           c1 # _ \<Rightarrow> if cont c1 then Some ((x - 0xC0) * 64 + tail6 c1, 2) else None
         | _ \<Rightarrow> None)
      else if x < 0xF0 then
        (case cs of
           c1 # c2 # _ \<Rightarrow>
             if (if x = 0xE0 then 0xA0 else 0x80) \<le> (of_char c1 :: int)
                \<and> (of_char c1 :: int) \<le> (if x = 0xED then 0x9F else 0xBF) \<and> cont c2
             then Some ((x - 0xE0) * 4096 + tail6 c1 * 64 + tail6 c2, 3) else None
         | _ \<Rightarrow> None)
      else if x < 0xF5 then
        (case cs of
           c1 # c2 # c3 # _ \<Rightarrow>
             if (if x = 0xF0 then 0x90 else 0x80) \<le> (of_char c1 :: int)
                \<and> (of_char c1 :: int) \<le> (if x = 0xF4 then 0x8F else 0xBF)
                \<and> cont c2 \<and> cont c3
             then Some ((x - 0xF0) * 262144 + tail6 c1 * 4096 + tail6 c2 * 64 + tail6 c3, 4)
             else None
         | _ \<Rightarrow> None)
      else None)"

lemma DecodeRune_size: "DecodeRune p = Some (r, n) \<Longrightarrow> 0 < n \<and> n \<le> length p"
  by (cases p) (auto simp: Let_def split: if_splits list.splits)

text \<open>
  \<^verbatim>\<open>utf8.Valid\<close>: the loop decodes rune after rune and stops with false at the first
  encoding error.
\<close>

function Valid :: "string \<Rightarrow> bool" where
  "Valid [] = True"
| "Valid (c # cs) =
     (case DecodeRune (c # cs) of
        None \<Rightarrow> False
      | Some (r, n) \<Rightarrow> Valid (drop n (c # cs)))"
  by pat_completeness auto
termination
proof (relation "measure length")
  show "wf (measure length)" by simp
next
  fix c cs p r n
  assume "DecodeRune (c # cs) = Some p" "(r, n) = p"
  then have "DecodeRune (c # cs) = Some (r, n)" by simp
  from DecodeRune_size [OF this] show "(drop n (c # cs), c # cs) \<in> measure length"
    by simp
qed

text \<open>
  The text a byte sequence stands for when it is read as UTF-8: its code points, or
  \<open>None\<close> when the bytes are no UTF-8. This is the notion the specification's
  ``decoding as UTF-8'' refers to; the program itself never computes it.
\<close>

function decode_utf8 :: "string \<Rightarrow> rune list option" where
  "decode_utf8 [] = Some []"
| "decode_utf8 (c # cs) =
     (case DecodeRune (c # cs) of
        None \<Rightarrow> None
      | Some (r, n) \<Rightarrow> map_option ((#) r) (decode_utf8 (drop n (c # cs))))"
  by pat_completeness auto
termination
proof (relation "measure length")
  show "wf (measure length)" by simp
next
  fix c cs p r n
  assume "DecodeRune (c # cs) = Some p" "(r, n) = p"
  then have "DecodeRune (c # cs) = Some (r, n)" by simp
  from DecodeRune_size [OF this] show "(drop n (c # cs), c # cs) \<in> measure length"
    by simp
qed

subsection \<open>\<^verbatim>\<open>toUnicode\<close>\<close>

text \<open>
  The loop \<^verbatim>\<open>for index, val := range data { runes[index] = rune(val) }\<close>: the index
  is always inside the slice made with \<^verbatim>\<open>len(data)\<close> elements.
\<close>

fun fill_runes :: "nat \<Rightarrow> string \<Rightarrow> rune list \<Rightarrow> rune list" where
  "fill_runes index [] runes = runes"
| "fill_runes index (val # rest) runes =
     fill_runes (Suc index) rest (runes[index := rune val])"

definition toUnicode :: "string \<Rightarrow> string" where
  "toUnicode data =
     (if Valid data then data
      else string_of_runes (fill_runes 0 data (replicate (length data) 0)))"

section \<open>The world a connection acts on\<close>

text \<open>
  A socket is a handle: the number the dial gave it, the address dialled and whether the
  session is TLS. What the program does to the outside (log lines, socket calls, channel
  sends) is recorded, in order, in a trace of events; the trace is the only state besides
  the fields of the structs.
\<close>

record Conn =
  fd :: nat
  remote :: string
  secure :: bool

type_synonym chan = nat

text \<open>
  Modelled from the spec: the struct \<^verbatim>\<open>Line\<close> is declared outside the two files.
  The code reads its fields \<^verbatim>\<open>Command\<close> and \<^verbatim>\<open>User\<close> only; whatever else a
  line carries is the extension of the record, which every function below leaves alone.
\<close>

record Line =
  Command :: string
  User :: string

datatype 'l event =
    StdLog string
  | OpenLog string
  | RawLog string string
  | Dial Conn
  | Sleep
  | SetReadTimeout Conn
  | SetReadDeadline Conn
  | Write Conn string
  | CloseSock Conn
  | PeerReset Conn
  | ChanSend chan 'l
  | Go_Consume Conn

text \<open>
  \<^verbatim>\<open>log.Fatal\<close> ends the process after logging; a run-time panic ends it too. Both are
  results of the functions that can reach them.
\<close>

datatype fault = Fatal string | Panic string

text \<open>
  The constants \<^verbatim>\<open>HOME\<close>, \<^verbatim>\<open>LOG_DIR\<close> and \<^verbatim>\<open>VERSION\<close>, the parser
  \<^verbatim>\<open>ParseLine\<close> and the network are outside the two files; they are parameters.
  \<open>dial env tls addr\<close> tells whether dialling \<open>addr\<close> (with TLS or without) succeeds.
\<close>

record 'l env =
  HOME :: string
  LOG_DIR :: string
  VERSION :: string
  ParseLine :: "string \<Rightarrow> 'l option"
  dial :: "bool \<Rightarrow> string \<Rightarrow> bool"

definition SSL_PORT :: string where
  "SSL_PORT = ''6697''"

text \<open>\<^verbatim>\<open>fmt.Sprintln\<close> on strings: the operands separated by spaces, then a newline.\<close>

fun Sprintln :: "string list \<Rightarrow> string" where
  "Sprintln [] = ''\<newline>''"
| "Sprintln [a] = a @ ''\<newline>''"
| "Sprintln (a # b # rest) = a @ '' '' @ Sprintln (b # rest)"

subsection \<open>The functions of package \<^verbatim>\<open>strings\<close> that the code calls\<close>

definition HasPrefix :: "string \<Rightarrow> string \<Rightarrow> bool" where
  "HasPrefix s p \<longleftrightarrow> take (length p) s = p"

definition HasSuffix :: "string \<Rightarrow> string \<Rightarrow> bool" where
  "HasSuffix s suffix \<longleftrightarrow>
     length suffix \<le> length s \<and> drop (length s - length suffix) s = suffix"

text \<open>\<^verbatim>\<open>strings.Index\<close>: where \<open>sep\<close> first occurs in \<open>s\<close>.\<close>

fun Index :: "string \<Rightarrow> string \<Rightarrow> nat option" where
  "Index [] sep = (if sep = [] then Some 0 else None)"
| "Index (c # cs) sep =
     (if HasPrefix (c # cs) sep then Some 0 else map_option Suc (Index cs sep))"

text \<open>
  \<^verbatim>\<open>strings.SplitN\<close> and \<^verbatim>\<open>strings.Replace\<close> for a count \<open>n \<ge> 0\<close> and a
  non-empty \<open>sep\<close> (\<open>old\<close>), which is how the code calls them.
\<close>

fun SplitN :: "string \<Rightarrow> string \<Rightarrow> nat \<Rightarrow> string list" where
  "SplitN s sep 0 = []"
| "SplitN s sep (Suc 0) = [s]"
| "SplitN s sep (Suc (Suc n)) =
     (case Index s sep of
        None \<Rightarrow> [s]
      | Some i \<Rightarrow> take i s # SplitN (drop (i + length sep) s) sep (Suc n))"

fun Replace :: "string \<Rightarrow> string \<Rightarrow> string \<Rightarrow> nat \<Rightarrow> string" where
  "Replace s old new 0 = s"
| "Replace s old new (Suc n) =
     (case Index s old of
        None \<Rightarrow> s
      | Some i \<Rightarrow> take i s @ new @ Replace (drop (i + length old) s) old new n)"

section \<open>External: one connection\<close>

text \<open>
  The struct of the later file. The earlier file's struct has the same four fields and
  two more, so it is the extension \<open>hatcogd_External\<close>; the methods whose bodies are
  the same in both files are defined once, for every extension.
\<close>

record External =
  socket :: Conn
  fromServer :: chan
  rawLog :: string
  isIdentified :: bool

record hatcogd_External = External +
  name :: string
  isClosing :: bool

text \<open>
  \<^verbatim>\<open>socket.Write\<close> returns an error on a socket that was closed or that the peer
  has reset, and succeeds otherwise.
\<close>

definition writable :: "Conn \<Rightarrow> 'l event list \<Rightarrow> bool" where
  "writable s tr \<longleftrightarrow> CloseSock s \<notin> set tr \<and> PeerReset s \<notin> set tr"

definition SendRaw ::
  "'a External_scheme \<Rightarrow> string \<Rightarrow> 'l event list \<Rightarrow> fault + 'l event list" where
  "SendRaw self msg tr =
     (let msg = msg @ ''\<newline>'';
          tr = tr @ [RawLog (rawLog self) ('' -->'' @ msg)]
      in if writable (socket self) tr then Inr (tr @ [Write (socket self) msg])
         else Inl (Fatal ''Error writing to socket''))"

definition SendMessage ::
  "'a External_scheme \<Rightarrow> string \<Rightarrow> string \<Rightarrow> 'l event list \<Rightarrow> fault + 'l event list" where
  "SendMessage self channel msg tr =
     (let fullmsg = ''PRIVMSG '' @ channel @ '' :'' @ msg in SendRaw self fullmsg tr)"

definition SendAction ::
  "'a External_scheme \<Rightarrow> string \<Rightarrow> string \<Rightarrow> 'l event list \<Rightarrow> fault + 'l event list" where
  "SendAction self channel msg tr =
     (let fullmsg = ''PRIVMSG '' @ channel @ '' :'' @ [CHR 0x01] @ ''ACTION '' @ msg @ [CHR 0x01]
      in SendRaw self fullmsg tr)"

definition Identify ::
  "'a External_scheme \<Rightarrow> string \<Rightarrow> 'l event list
     \<Rightarrow> fault + ('a External_scheme \<times> 'l event list)" where
  "Identify self password tr =
     (if \<not> isIdentified self then
        (case SendMessage self ''NickServ'' (''identify '' @ password)
                (tr @ [StdLog (Sprintln [''Identifying with NickServ''])]) of
           Inl f \<Rightarrow> Inl f
         | Inr tr' \<Rightarrow> Inr (self\<lparr>isIdentified := True\<rparr>, tr'))
      else Inr (self, tr))"

text \<open>
  \<^verbatim>\<open>Close\<close> returns what \<^verbatim>\<open>socket.Close\<close> returns: an error when the socket was
  closed before.
\<close>

definition Close ::
  "'a External_scheme \<Rightarrow> 'l event list \<Rightarrow> string option \<times> 'l event list" where
  "Close self tr =
     (if CloseSock (socket self) \<in> set tr then Some ''use of closed network connection''
      else None,
      tr @ [CloseSock (socket self)])"

text \<open>Several calls of \<open>Identify\<close> on one connection, one after the other.\<close>

fun Identify_calls ::
  "'a External_scheme \<Rightarrow> string list \<Rightarrow> 'l event list
     \<Rightarrow> fault + ('a External_scheme \<times> 'l event list)" where
  "Identify_calls self [] tr = Inr (self, tr)"
| "Identify_calls self (password # rest) tr =
     (case Identify self password tr of
        Inl f \<Rightarrow> Inl f
      | Inr (self', tr') \<Rightarrow> Identify_calls self' rest tr')"

subsection \<open>Construction\<close>

text \<open>
  \<^verbatim>\<open>openLogFile\<close> (\<^verbatim>\<open>openLog\<close> in the earlier file) is outside the two files:
  opening the log is an event, and the logger is known by the name of its file. A dial
  that succeeds gives a socket whose number is the length of the trace at that moment, so
  two dials never give the same socket. A dial that fails ends the process.
\<close>

definition NewExternal ::
  "'l env \<Rightarrow> string \<Rightarrow> chan \<Rightarrow> 'l event list \<Rightarrow> fault + (External \<times> 'l event list)" where
  "NewExternal env server fromServer0 tr =
     (let logFilename = HOME env @ LOG_DIR env @ ''server_raw.log'';
          tr = tr @ [OpenLog logFilename,
                     StdLog (Sprintln [''Logging raw IRC messages to:'', logFilename])];
          tls = HasSuffix server SSL_PORT
      in if \<not> dial env tls server then Inl (Fatal ''Error connecting to IRC server:'')
         else
           let sock = \<lparr>fd = length tr, remote = server, secure = tls\<rparr>
           in Inr (\<lparr>socket = sock, fromServer = fromServer0, rawLog = logFilename,
                     isIdentified = False\<rparr>,
                   tr @ [Dial sock, Sleep]))"

definition hatcogd_NewExternal ::
  "'l env \<Rightarrow> string \<Rightarrow> string \<Rightarrow> string \<Rightarrow> chan \<Rightarrow> 'l event list
     \<Rightarrow> fault + (hatcogd_External \<times> 'l event list)" where
  "hatcogd_NewExternal env server nick name0 fromServer0 tr =
     (let logFilename = HOME env @ LOG_DIR env @ ''server_raw.log'';
          tr = tr @ [OpenLog logFilename,
                     StdLog (Sprintln [''Logging raw IRC messages to:'', logFilename])];
          tls = HasSuffix server SSL_PORT
      in if \<not> dial env tls server then Inl (Fatal ''Error on IRC connect:'')
         else
           let sock = \<lparr>fd = length tr, remote = server, secure = tls\<rparr>;
               tr = tr @ [Dial sock, Sleep, SetReadTimeout sock];
               conn = \<lparr>socket = sock, fromServer = fromServer0, rawLog = logFilename,
                       isIdentified = False, name = name0, isClosing = False\<rparr>
           in case SendRaw conn (''USER '' @ nick @ '' localhost localhost :'' @ name0) tr of
                Inl f \<Rightarrow> Inl f
              | Inr tr \<Rightarrow>
                  (case SendRaw conn (''NICK '' @ nick) tr of
                     Inl f \<Rightarrow> Inl f
                   | Inr tr \<Rightarrow> Inr (conn, tr @ [Sleep])))"

subsection \<open>Slash commands\<close>

text \<open>
  \<^verbatim>\<open>content[1:]\<close> panics on the empty string. \<^verbatim>\<open>parts[0]\<close> exists, as
  \<open>SplitN\<close> with count 2 returns at least one part.
\<close>

definition doCommand ::
  "'a External_scheme \<Rightarrow> string \<Rightarrow> 'l event list \<Rightarrow> fault + 'l event list" where
  "doCommand self content tr =
     (if length content < 1 then Inl (Panic ''slice bounds out of range'')
      else
        let content = drop 1 content;
            parts = SplitN content '' '' 2;
            cmd = parts ! 0;
            content = (if cmd = ''msg'' then Replace content ''msg'' ''privmsg'' 1 else content)
        in SendRaw self content tr)"

definition hatcogd_doCommand ::
  "hatcogd_External \<Rightarrow> string \<Rightarrow> 'l event list \<Rightarrow> fault + 'l event list" where
  "hatcogd_doCommand self content tr =
     (if length content < 1 then Inl (Panic ''slice bounds out of range'')
      else let content = drop 1 content in SendRaw self content tr)"

subsection \<open>Reacting to a line\<close>

definition act ::
  "('z Line_scheme) env \<Rightarrow> 'a External_scheme \<Rightarrow> 'z Line_scheme \<Rightarrow> ('z Line_scheme) event list
     \<Rightarrow> fault + ('z Line_scheme) event list" where
  "act env self line tr =
     (case (if Command line = ''PING'' then SendRaw self ''PONG goirc'' tr
            else if Command line = ''VERSION'' then
              (let versionMsg = ''NOTICE '' @ User line @ '' :'' @ [CHR 0x01] @ ''VERSION ''
                                  @ VERSION env @ [CHR 0x01] @ ''\<newline>''
               in SendRaw self versionMsg tr)
            else Inr tr) of
        Inl f \<Rightarrow> Inl f
      | Inr tr \<Rightarrow> Inr (tr @ [ChanSend (fromServer self) line]))"

text \<open>The earlier file returns from the \<^verbatim>\<open>PING\<close> branch.\<close>

definition hatcogd_act ::
  "('z Line_scheme) env \<Rightarrow> hatcogd_External \<Rightarrow> 'z Line_scheme \<Rightarrow> ('z Line_scheme) event list
     \<Rightarrow> fault + ('z Line_scheme) event list" where
  "hatcogd_act env self line tr =
     (if Command line = ''PING'' then SendRaw self ''PONG goirc'' tr
      else
        (case (if Command line = ''VERSION'' then
                 (let versionMsg = ''NOTICE '' @ User line @ '' :'' @ [CHR 0x01] @ ''VERSION ''
                                     @ VERSION env @ [CHR 0x01] @ ''\<newline>''
                  in SendRaw self versionMsg tr)
               else Inr tr) of
           Inl f \<Rightarrow> Inl f
         | Inr tr \<Rightarrow> Inr (tr @ [ChanSend (fromServer self) line])))"

subsection \<open>The read loop\<close>

text \<open>
  One read of the loop returns the bytes read and an error or none. The error is a
  \<^verbatim>\<open>net.Error\<close> (with what its \<^verbatim>\<open>Timeout()\<close> says), end of stream, or
  something else. The socket's input is the list of the reads to come; when the list is
  used up the loop is still running, waiting in its next read.
\<close>

datatype ioerr = NetError bool | EOF | OtherError

type_synonym read = "string \<times> ioerr option"

datatype status = Running | Returned

fun Consume ::
  "('z Line_scheme) env \<Rightarrow> 'a External_scheme \<Rightarrow> read list \<Rightarrow> ('z Line_scheme) event list
     \<Rightarrow> fault + (status \<times> ('z Line_scheme) event list)" where
  "Consume env self [] tr = Inr (Running, tr)"
| "Consume env self ((contentData, err) # reads) tr =
     (let tr = tr @ [SetReadDeadline (socket self)] in
      case err of
        Some (NetError True) \<Rightarrow> Consume env self reads tr
      | Some EOF \<Rightarrow>
          Inr (Returned,
               snd (Close self (tr @ [StdLog (Sprintln [''IRC server closed connection.''])])))
      | Some _ \<Rightarrow> Inl (Fatal ''Consume Error:'')
      | None \<Rightarrow>
          if length contentData = 0 then Consume env self reads tr
          else
            let content = toUnicode contentData;
                tr = tr @ [RawLog (rawLog self) (Sprintln [content])]
            in case ParseLine env content of
                 Some line \<Rightarrow>
                   (case act env self line tr of
                      Inl f \<Rightarrow> Inl f
                    | Inr tr \<Rightarrow> Consume env self reads tr)
               | None \<Rightarrow>
                   Consume env self reads (tr @ [StdLog (Sprintln [''Invalid line:'', content])]))"

text \<open>
  The earlier file asserts the error to be a \<^verbatim>\<open>net.Error\<close> without looking at the
  outcome of the assertion; for any other error the value is nil and the call of
  \<^verbatim>\<open>Timeout()\<close> panics.
\<close>

fun hatcogd_Consume ::
  "('z Line_scheme) env \<Rightarrow> hatcogd_External \<Rightarrow> read list \<Rightarrow> ('z Line_scheme) event list
     \<Rightarrow> fault + (status \<times> ('z Line_scheme) event list)" where
  "hatcogd_Consume env self [] tr = (if isClosing self then Inr (Returned, tr) else Inr (Running, tr))"
| "hatcogd_Consume env self ((content, err) # reads) tr =
     (if isClosing self then Inr (Returned, tr)
      else
        case err of
          Some (NetError True) \<Rightarrow> hatcogd_Consume env self reads tr
        | Some (NetError False) \<Rightarrow> Inl (Fatal ''Consume Error:'')
        | Some _ \<Rightarrow> Inl (Panic ''invalid memory address or nil pointer dereference'')
        | None \<Rightarrow>
            let tr = tr @ [RawLog (rawLog self) (Sprintln [content])]
            in case ParseLine env content of
                 Some line \<Rightarrow>
                   (case hatcogd_act env self line tr of
                      Inl f \<Rightarrow> Inl f
                    | Inr tr \<Rightarrow> hatcogd_Consume env self reads tr)
               | None \<Rightarrow>
                   hatcogd_Consume env self reads
                     (tr @ [StdLog (Sprintln [''Invalid line:'', content])]))"

section \<open>ExternalManager: the connections by address\<close>

text \<open>
  The Go map from address to connection is an association list, or \<open>None\<close> for the
  nil map: reading a nil map finds nothing, assigning to it panics, ranging over it
  does nothing. The order in which Go ranges over a map is not fixed; the list's order is
  one of the orders it may take.
\<close>

record ExternalManager =
  connections :: "(string \<times> External) list option"
  fromServer :: chan

definition NewExternalManager :: "chan \<Rightarrow> ExternalManager" where
  "NewExternalManager fromServer0 = \<lparr>connections = Some [], fromServer = fromServer0\<rparr>"

text \<open>\<^verbatim>\<open>self.connections[addr]\<close>, with \<open>None\<close> for the nil pointer of a missing key.\<close>

definition connection_at :: "ExternalManager \<Rightarrow> string \<Rightarrow> External option" where
  "connection_at self addr =
     (case connections self of None \<Rightarrow> None | Some conns \<Rightarrow> map_of conns addr)"

definition ExternalManager_Connect ::
  "'l env \<Rightarrow> ExternalManager \<Rightarrow> string \<Rightarrow> 'l event list
     \<Rightarrow> fault + (ExternalManager \<times> 'l event list)" where
  "ExternalManager_Connect env self addr tr =
     (case connection_at self addr of
        Some conn \<Rightarrow> Inr (self, tr)
      | None \<Rightarrow>
          (case NewExternal env addr (ExternalManager.fromServer self) tr of
             Inl f \<Rightarrow> Inl f
           | Inr (conn, tr) \<Rightarrow>
               (case connections self of
                  None \<Rightarrow> Inl (Panic ''assignment to entry in nil map'')
                | Some conns \<Rightarrow>
                    Inr (self\<lparr>connections := Some (AList.update addr conn conns)\<rparr>,
                         tr @ [StdLog (Sprintln [''Connected to IRC server'', addr]),
                               Go_Consume (socket conn)]))))"

text \<open>
  A method called through a missing key runs on the nil pointer: \<^verbatim>\<open>doCommand\<close> slices
  its argument first and dereferences \<^verbatim>\<open>self\<close> in \<^verbatim>\<open>SendRaw\<close>.
\<close>

definition ExternalManager_doCommand ::
  "ExternalManager \<Rightarrow> string \<Rightarrow> string \<Rightarrow> 'l event list \<Rightarrow> fault + 'l event list" where
  "ExternalManager_doCommand self network content tr =
     (case connection_at self network of
        Some conn \<Rightarrow> doCommand conn content tr
      | None \<Rightarrow>
          if length content < 1 then Inl (Panic ''slice bounds out of range'')
          else Inl (Panic ''invalid memory address or nil pointer dereference''))"

text \<open>The loop of \<^verbatim>\<open>Close\<close> over the map; the errors of the single closes are dropped.\<close>

fun close_each :: "(string \<times> External) list \<Rightarrow> 'l event list \<Rightarrow> 'l event list" where
  "close_each [] tr = tr"
| "close_each ((addr, conn) # conns) tr = close_each conns (snd (Close conn tr))"

definition ExternalManager_Close ::
  "ExternalManager \<Rightarrow> 'l event list \<Rightarrow> ExternalManager \<times> 'l event list" where
  "ExternalManager_Close self tr =
     (self\<lparr>connections := None\<rparr>,
      case connections self of None \<Rightarrow> tr | Some conns \<Rightarrow> close_each conns tr)"

subsection \<open>Notions of the specification\<close>

text \<open>
  The port of an address \<^verbatim>\<open>host:port\<close> is what follows its last colon. The code never
  computes it; the specification speaks of it.
\<close>

definition port_of :: "string \<Rightarrow> string" where
  "port_of addr = rev (takeWhile (\<lambda>c. c \<noteq> CHR '':'') (rev addr))"

text \<open>The first of the space-separated tokens of a text.\<close>

definition first_token :: "string \<Rightarrow> string" where
  "first_token s = takeWhile (\<lambda>c. c \<noteq> CHR '' '') s"

text \<open>How many connections a manager holds for an address.\<close>

definition count_connections :: "ExternalManager \<Rightarrow> string \<Rightarrow> nat" where
  "count_connections self addr =
     (case connections self of
        None \<Rightarrow> 0
      | Some conns \<Rightarrow> length (filter (\<lambda>entry. fst entry = addr) conns))"

text \<open>A Go map has each key once.\<close>

definition map_ok :: "ExternalManager \<Rightarrow> bool" where
  "map_ok self \<longleftrightarrow>
     (case connections self of None \<Rightarrow> True | Some conns \<Rightarrow> distinct (map fst conns))"

subsection \<open>Concrete values for the examples\<close>

definition demo_env :: "Line env" where
  "demo_env = \<lparr>HOME = ''/home/irc'', LOG_DIR = ''/.hatcog/'', VERSION = ''hatcog'',
     ParseLine = (\<lambda>content. None), dial = (\<lambda>tls addr. True)\<rparr>"

definition demo_socket :: Conn where
  "demo_socket = \<lparr>fd = 0, remote = ''irc.example.org:6667'', secure = False\<rparr>"

definition demo_conn :: External where
  "demo_conn = \<lparr>socket = demo_socket, fromServer = 0, rawLog = ''server_raw.log'',
     isIdentified = False\<rparr>"

definition demo_hatcogd_conn :: hatcogd_External where
  "demo_hatcogd_conn = \<lparr>socket = demo_socket, fromServer = 0, rawLog = ''server_raw.log'',
     isIdentified = False, name = ''hatcog'', isClosing = False\<rparr>"

definition demo_manager :: ExternalManager where
  "demo_manager =
     \<lparr>connections = Some [(''irc.example.org:6667'',
        \<lparr>socket = \<lparr>fd = 2, remote = ''irc.example.org:6667'', secure = False\<rparr>,
           fromServer = 0, rawLog = ''/home/irc/.hatcog/server_raw.log'',
           isIdentified = False\<rparr>)],
      fromServer = 0\<rparr>"

definition demo_trace :: "Line event list" where
  "demo_trace =
     [OpenLog ''/home/irc/.hatcog/server_raw.log'',
      StdLog ''Logging raw IRC messages to: /home/irc/.hatcog/server_raw.log\<newline>'',
      Dial \<lparr>fd = 2, remote = ''irc.example.org:6667'', secure = False\<rparr>,
      Sleep,
      StdLog ''Connected to IRC server irc.example.org:6667\<newline>'',
      Go_Consume \<lparr>fd = 2, remote = ''irc.example.org:6667'', secure = False\<rparr>]"

section \<open>Properties of the decoding\<close>

lemma of_char_bounds: "0 \<le> (of_char c :: int) \<and> (of_char c :: int) < 256"
proof -
  have "(of_char c :: int) = of_char c mod 256" by simp
  moreover have "0 \<le> (of_char c :: int) mod 256 \<and> (of_char c :: int) mod 256 < 256"
    by (simp del: of_char_mod_256)
  ultimately show ?thesis by simp
qed

lemma of_char_char_of_small:
  "0 \<le> (a::int) \<Longrightarrow> a < 256 \<Longrightarrow> (of_char (char_of a) :: int) = a"
  by simp

lemma EncodeRune_ascii:
  assumes "0 \<le> r" "r < 128"
  shows "EncodeRune r = [char_of r]" and "DecodeRune (char_of r # rest) = Some (r, 1)"
  using assms by (simp_all add: EncodeRune_def)

lemma EncodeRune_high:
  assumes "128 \<le> r" "r < 256"
  shows "EncodeRune r = [char_of (0xC0 + r div 64), char_of (0x80 + r mod 64)]"
    and "DecodeRune (char_of (0xC0 + r div 64) # char_of (0x80 + r mod 64) # rest)
           = Some (r, 2)"
proof -
  show "EncodeRune r = [char_of (0xC0 + r div 64), char_of (0x80 + r mod 64)]"
    using assms by (simp add: EncodeRune_def)
  have d: "2 \<le> r div 64" "r div 64 < 4" using assms by simp_all
  have m: "0 \<le> r mod 64" "r mod 64 < 64" by simp_all
  have b0: "(of_char (char_of (0xC0 + r div 64)) :: int) = 0xC0 + r div 64"
    using d by (intro of_char_char_of_small) simp_all
  have b1: "(of_char (char_of (0x80 + r mod 64)) :: int) = 0x80 + r mod 64"
    using m by (intro of_char_char_of_small) simp_all
  have r: "r div 64 * 64 + r mod 64 = r" by simp
  show "DecodeRune (char_of (0xC0 + r div 64) # char_of (0x80 + r mod 64) # rest)
          = Some (r, 2)"
    unfolding DecodeRune.simps Let_def b0 cont_def tail6_def b1
    using d m r by simp
qed

lemma decode_utf8_EncodeRune:
  assumes "0 \<le> r" "r < 256"
  shows "decode_utf8 (EncodeRune r @ rest) = map_option ((#) r) (decode_utf8 rest)"
proof (cases "r < 128")
  case True
  with assms have "EncodeRune r @ rest = char_of r # rest"
    and "DecodeRune (char_of r # rest) = Some (r, 1)"
    by (simp_all add: EncodeRune_ascii del: DecodeRune.simps)
  then show ?thesis by (simp del: DecodeRune.simps)
next
  case False
  with assms have h: "128 \<le> r" "r < 256" by simp_all
  have "EncodeRune r @ rest = char_of (0xC0 + r div 64) # char_of (0x80 + r mod 64) # rest"
    by (simp add: EncodeRune_high(1) [OF h])
  then show ?thesis
    by (simp add: EncodeRune_high(2) [OF h] del: DecodeRune.simps)
qed

lemma decode_utf8_string_of_runes:
  "\<forall>r \<in> set runes. 0 \<le> r \<and> r < 256 \<Longrightarrow> decode_utf8 (string_of_runes runes) = Some runes"
proof (induction runes)
  case Nil
  show ?case by (simp add: string_of_runes_def)
next
  case (Cons r runes)
  then have "decode_utf8 (string_of_runes runes) = Some runes" by simp
  moreover have "0 \<le> r" "r < 256" using Cons.prems by simp_all
  ultimately show ?case
    using decode_utf8_EncodeRune [of r "string_of_runes runes"]
    by (simp add: string_of_runes_def)
qed

lemma fill_runes_take:
  "length runes = index + length data \<Longrightarrow>
   fill_runes index data runes = take index runes @ map rune data"
proof (induction data arbitrary: index runes)
  case Nil
  then show ?case by simp
next
  case (Cons val rest)
  have i: "index < length runes" using Cons.prems by simp
  have "fill_runes (Suc index) rest (runes[index := rune val])
          = take (Suc index) (runes[index := rune val]) @ map rune rest"
    using Cons.prems by (intro Cons.IH) simp
  also have "take (Suc index) (runes[index := rune val]) = take index runes @ [rune val]"
    using i by (simp add: take_Suc_conv_app_nth)
  finally show ?case by simp
qed

lemma fill_runes_map: "fill_runes 0 data (replicate (length data) 0) = map rune data"
  by (simp add: fill_runes_take)

lemma Valid_iff_decode_utf8: "Valid data \<longleftrightarrow> decode_utf8 data \<noteq> None"
  by (induction data rule: Valid.induct) (auto split: option.splits)

text \<open>
  C1. For a byte sequence that is valid UTF-8, \<open>toUnicode\<close> returns the same bytes, so
  the text it returns is the text the input decodes to. For a byte sequence that is not
  valid UTF-8 it returns a text with one code point for each input byte, the i-th code
  point being the value (0 to 255) of the i-th byte. The function has no failing branch.
\<close>

theorem toUnicode_decodes:
  "(Valid data \<longrightarrow>
      toUnicode data = data \<and>
      (\<exists>cps. decode_utf8 data = Some cps \<and> decode_utf8 (toUnicode data) = Some cps)) \<and>
   (\<not> Valid data \<longrightarrow>
      (\<exists>cps. decode_utf8 (toUnicode data) = Some cps \<and> length cps = length data \<and>
         (\<forall>i < length data. cps ! i = of_char (data ! i) \<and> 0 \<le> cps ! i \<and> cps ! i \<le> 255)))"
proof (intro conjI impI)
  assume v: "Valid data"
  then show "toUnicode data = data" by (simp add: toUnicode_def)
  from v obtain cps where "decode_utf8 data = Some cps"
    by (auto simp: Valid_iff_decode_utf8)
  with v show "\<exists>cps. decode_utf8 data = Some cps \<and> decode_utf8 (toUnicode data) = Some cps"
    by (simp add: toUnicode_def)
next
  assume v: "\<not> Valid data"
  have b: "\<forall>r \<in> set (map rune data). 0 \<le> r \<and> r < 256"
    using of_char_bounds by (simp add: rune_def)
  have "decode_utf8 (toUnicode data) = Some (map rune data)"
    using v decode_utf8_string_of_runes [OF b] by (simp add: toUnicode_def fill_runes_map)
  moreover have "\<forall>i < length data. map rune data ! i = of_char (data ! i)
      \<and> 0 \<le> map rune data ! i \<and> map rune data ! i \<le> 255"
  proof (intro allI impI)
    fix i assume "i < length data"
    moreover have "0 \<le> (of_char (data ! i) :: int) \<and> (of_char (data ! i) :: int) < 256"
      by (rule of_char_bounds)
    ultimately show "map rune data ! i = of_char (data ! i)
        \<and> 0 \<le> map rune data ! i \<and> map rune data ! i \<le> 255"
      by (simp add: rune_def)
  qed
  ultimately show "\<exists>cps. decode_utf8 (toUnicode data) = Some cps \<and> length cps = length data \<and>
      (\<forall>i < length data. cps ! i = of_char (data ! i) \<and> 0 \<le> cps ! i \<and> cps ! i \<le> 255)"
    by (intro exI [of _ "map rune data"]) (simp add: rune_def)
qed

theorem toUnicode_decodes_witness:
  "Valid ''PING'' \<and> toUnicode ''PING'' = ''PING'' \<and>
   \<not> Valid [CHR 0x63, CHR 0x61, CHR 0x66, CHR 0xE9] \<and>
   decode_utf8 (toUnicode [CHR 0x63, CHR 0x61, CHR 0x66, CHR 0xE9]) = Some [0x63, 0x61, 0x66, 0xE9]"
proof -
  have v: "Valid ''PING''" by code_simp
  have n: "\<not> Valid [CHR 0x63, CHR 0x61, CHR 0x66, CHR 0xE9]" by code_simp
  have e: "toUnicode [CHR 0x63, CHR 0x61, CHR 0x66, CHR 0xE9]
             = [CHR 0x63, CHR 0x61, CHR 0x66, CHR 0xC3, CHR 0xA9]" by code_simp
  have d: "decode_utf8 [CHR 0x63, CHR 0x61, CHR 0x66, CHR 0xC3, CHR 0xA9]
             = Some [0x63, 0x61, 0x66, 0xE9]" by code_simp
  show ?thesis
    using toUnicode_decodes [of "''PING''"] v n e d by simp
qed

section \<open>Properties of sending\<close>

lemma writable_Nil: "writable s []"
  by (simp add: writable_def)

lemma writable_RawLog: "writable s (tr @ [RawLog f m]) = writable s tr"
  by (simp add: writable_def)

lemma SendRaw_eq:
  "SendRaw self msg tr =
     (if writable (socket self) tr
      then Inr (tr @ [RawLog (rawLog self) ('' -->'' @ msg @ ''\<newline>''),
                      Write (socket self) (msg @ ''\<newline>'')])
      else Inl (Fatal ''Error writing to socket''))"
  by (simp add: SendRaw_def Let_def writable_RawLog)

subsection \<open>The reaction to a line\<close>

text \<open>
  C2, as the claim states it, fails on the earlier file: there the \<^verbatim>\<open>PING\<close> branch
  answers and returns, and the line does not reach the channel.
\<close>

theorem hatcogd_PING_not_forwarded:
  "hatcogd_act demo_env demo_hatcogd_conn \<lparr>Command = ''PING'', User = ''irc.example.org''\<rparr> []
     = Inr [RawLog ''server_raw.log'' '' -->PONG goirc\<newline>'',
            Write demo_socket ''PONG goirc\<newline>'']"
  by (simp add: hatcogd_act_def SendRaw_eq writable_Nil demo_hatcogd_conn_def)

text \<open>
  C2, amended. For a line whose command is \<^verbatim>\<open>PING\<close>, \<open>act\<close> of the later file makes
  exactly one raw send, of \<^verbatim>\<open>PONG goirc\<close> and a newline (mirrored to the raw log
  first), and then pushes the line onto the connection's channel; \<open>act\<close> of the earlier
  file makes the same raw send and pushes nothing. In both, a failing write ends the
  process through \<^verbatim>\<open>log.Fatal\<close>.
\<close>

theorem act_PING:
  assumes "Command line = ''PING''"
  shows "act env self line tr =
           (if writable (socket self) tr
            then Inr (tr @ [RawLog (rawLog self) '' -->PONG goirc\<newline>'',
                            Write (socket self) ''PONG goirc\<newline>'',
                            ChanSend (External.fromServer self) line])
            else Inl (Fatal ''Error writing to socket'')) \<and>
         hatcogd_act env hself line tr =
           (if writable (socket hself) tr
            then Inr (tr @ [RawLog (rawLog hself) '' -->PONG goirc\<newline>'',
                            Write (socket hself) ''PONG goirc\<newline>''])
            else Inl (Fatal ''Error writing to socket''))"
  using assms by (simp add: act_def hatcogd_act_def SendRaw_eq)

theorem act_PING_witness:
  "Command \<lparr>Command = ''PING'', User = ''irc.example.org''\<rparr> = ''PING'' \<and>
   act demo_env demo_conn \<lparr>Command = ''PING'', User = ''irc.example.org''\<rparr> []
     = Inr [RawLog ''server_raw.log'' '' -->PONG goirc\<newline>'',
            Write demo_socket ''PONG goirc\<newline>'',
            ChanSend 0 \<lparr>Command = ''PING'', User = ''irc.example.org''\<rparr>]"
  using act_PING [of "\<lparr>Command = ''PING'', User = ''irc.example.org''\<rparr>"
      demo_env demo_conn "[]" demo_hatcogd_conn]
  by (simp add: writable_Nil demo_conn_def)

text \<open>
  C8. For a line whose command is \<^verbatim>\<open>VERSION\<close>, \<open>act\<close> (in both files) makes exactly
  one raw send: a \<^verbatim>\<open>NOTICE\<close> to the line's user that holds \<^verbatim>\<open>VERSION\<close> and the
  configured version string between two 0x01 bytes; then it pushes the line onto the
  connection's channel. The only other outcome is the end of the process on a failing
  write.
\<close>

theorem act_VERSION:
  assumes "Command line = ''VERSION''"
  shows "act env self line tr =
           (if writable (socket self) tr
            then Inr (tr @ [RawLog (rawLog self)
                              ('' -->NOTICE '' @ User line @ '' :'' @ [CHR 0x01] @ ''VERSION ''
                                 @ VERSION env @ [CHR 0x01] @ ''\<newline>\<newline>''),
                            Write (socket self)
                              (''NOTICE '' @ User line @ '' :'' @ [CHR 0x01] @ ''VERSION ''
                                 @ VERSION env @ [CHR 0x01] @ ''\<newline>\<newline>''),
                            ChanSend (External.fromServer self) line])
            else Inl (Fatal ''Error writing to socket'')) \<and>
         hatcogd_act env hself line tr =
           (if writable (socket hself) tr
            then Inr (tr @ [RawLog (rawLog hself)
                              ('' -->NOTICE '' @ User line @ '' :'' @ [CHR 0x01] @ ''VERSION ''
                                 @ VERSION env @ [CHR 0x01] @ ''\<newline>\<newline>''),
                            Write (socket hself)
                              (''NOTICE '' @ User line @ '' :'' @ [CHR 0x01] @ ''VERSION ''
                                 @ VERSION env @ [CHR 0x01] @ ''\<newline>\<newline>''),
                            ChanSend (External.fromServer hself) line])
            else Inl (Fatal ''Error writing to socket''))"
  using assms by (simp add: act_def hatcogd_act_def SendRaw_eq)

theorem act_VERSION_witness:
  "Command \<lparr>Command = ''VERSION'', User = ''alice''\<rparr> = ''VERSION'' \<and>
   act demo_env demo_conn \<lparr>Command = ''VERSION'', User = ''alice''\<rparr> []
     = Inr [RawLog ''server_raw.log''
              ('' -->NOTICE alice :'' @ [CHR 0x01] @ ''VERSION hatcog'' @ [CHR 0x01]
                 @ ''\<newline>\<newline>''),
            Write demo_socket
              (''NOTICE alice :'' @ [CHR 0x01] @ ''VERSION hatcog'' @ [CHR 0x01]
                 @ ''\<newline>\<newline>''),
            ChanSend 0 \<lparr>Command = ''VERSION'', User = ''alice''\<rparr>] \<and>
   hatcogd_act demo_env demo_hatcogd_conn \<lparr>Command = ''VERSION'', User = ''alice''\<rparr> []
     = Inr [RawLog ''server_raw.log''
              ('' -->NOTICE alice :'' @ [CHR 0x01] @ ''VERSION hatcog'' @ [CHR 0x01]
                 @ ''\<newline>\<newline>''),
            Write demo_socket
              (''NOTICE alice :'' @ [CHR 0x01] @ ''VERSION hatcog'' @ [CHR 0x01]
                 @ ''\<newline>\<newline>''),
            ChanSend 0 \<lparr>Command = ''VERSION'', User = ''alice''\<rparr>]"
  using act_VERSION [of "\<lparr>Command = ''VERSION'', User = ''alice''\<rparr>"
      demo_env demo_conn "[]" demo_hatcogd_conn]
  by (simp add: writable_Nil demo_conn_def demo_hatcogd_conn_def demo_env_def)

subsection \<open>Slash commands\<close>

lemma Index_HasPrefix: "HasPrefix s sep \<Longrightarrow> Index s sep = Some 0"
  by (cases s) (auto simp: HasPrefix_def)

lemma Index_char:
  "Index s [c] = (if c \<in> set s then Some (length (takeWhile (\<lambda>x. x \<noteq> c) s)) else None)"
  by (induction s) (auto simp: HasPrefix_def)

lemma SplitN_two:
  "SplitN s sep 2 =
     (case Index s sep of None \<Rightarrow> [s] | Some i \<Rightarrow> [take i s, drop (i + length sep) s])"
  by (simp add: numeral_2_eq_2 split: option.splits)

lemma SplitN_first_token: "SplitN s '' '' 2 ! 0 = first_token s"
proof (cases "CHR '' '' \<in> set s")
  case True
  then show ?thesis
    unfolding SplitN_two first_token_def
    by (simp add: Index_char takeWhile_eq_take [symmetric])
next
  case False
  then have "\<forall>x \<in> set s. x \<noteq> CHR '' ''" by auto
  then have "takeWhile (\<lambda>x. x \<noteq> CHR '' '') s = s" by simp
  then have "first_token s = s" by (simp only: first_token_def)
  moreover have "SplitN s '' '' 2 ! 0 = s"
    unfolding SplitN_two using False by (simp add: Index_char)
  ultimately show ?thesis by (simp only:)
qed

lemma first_token_msg:
  assumes "first_token s = ''msg''"
  shows "HasPrefix s ''msg''"
proof -
  have "takeWhile (\<lambda>c. c \<noteq> CHR '' '') s @ dropWhile (\<lambda>c. c \<noteq> CHR '' '') s = s"
    by (rule takeWhile_dropWhile_id)
  then have "''msg'' @ dropWhile (\<lambda>c. c \<noteq> CHR '' '') s = s"
    using assms unfolding first_token_def by metis
  then have "take (length ''msg'') s = ''msg''"
    by (metis append_eq_conv_conj)
  then show ?thesis by (simp only: HasPrefix_def)
qed

lemma Replace_once:
  "Replace s old new 1 =
     (case Index s old of None \<Rightarrow> s | Some i \<Rightarrow> take i s @ new @ drop (i + length old) s)"
  by (simp split: option.splits)

lemma Replace_msg:
  assumes "HasPrefix s ''msg''"
  shows "Replace s ''msg'' ''privmsg'' 1 = ''privmsg'' @ drop 3 s"
  unfolding Replace_once using Index_HasPrefix [OF assms] by (simp add: numeral_3_eq_3)

lemma doCommand_eq:
  "doCommand self (c # rest) tr =
     SendRaw self (if first_token rest = ''msg'' then ''privmsg'' @ drop 3 rest else rest) tr"
proof -
  have d: "drop 1 (c # rest) = rest" by simp
  have l: "\<not> length (c # rest) < 1" by simp
  have r: "first_token rest = ''msg'' \<Longrightarrow>
      Replace rest ''msg'' ''privmsg'' 1 = ''privmsg'' @ drop 3 rest"
    by (intro Replace_msg first_token_msg)
  show ?thesis
    unfolding doCommand_def Let_def d SplitN_first_token if_not_P [OF l]
    using r by (simp del: One_nat_def Replace.simps)
qed


text \<open>
  C3, as the claim states it, fails on the earlier file: its \<open>doCommand\<close> strips the
  first byte and sends the rest as it is, so \<^verbatim>\<open>/msg NickServ help\<close> goes out as
  \<^verbatim>\<open>msg NickServ help\<close>.
\<close>

theorem hatcogd_doCommand_keeps_msg:
  "hatcogd_doCommand demo_hatcogd_conn ''/msg NickServ help'' []
     = Inr [RawLog ''server_raw.log'' '' -->msg NickServ help\<newline>'',
            Write demo_socket ''msg NickServ help\<newline>'']"
  by (simp add: hatcogd_doCommand_def SendRaw_eq writable_Nil demo_hatcogd_conn_def)

text \<open>
  C3, amended. \<open>doCommand\<close> of the later file strips the first byte of its input (the
  slash) and, when the first space-separated token of the rest is exactly \<^verbatim>\<open>msg\<close>,
  puts \<^verbatim>\<open>privmsg\<close> in its place; the result is sent as one raw line, so
  \<^verbatim>\<open>/msg NickServ help\<close> goes out as \<^verbatim>\<open>privmsg NickServ help\<close>. \<open>doCommand\<close> of
  the earlier file strips the first byte and sends the rest unchanged. In both, a failing
  write ends the process.
\<close>

theorem doCommand_sends:
  "doCommand self (c # rest) tr =
     (let line = (if first_token rest = ''msg'' then ''privmsg'' @ drop 3 rest else rest)
      in if writable (socket self) tr
         then Inr (tr @ [RawLog (rawLog self) ('' -->'' @ line @ ''\<newline>''),
                         Write (socket self) (line @ ''\<newline>'')])
         else Inl (Fatal ''Error writing to socket'')) \<and>
   hatcogd_doCommand hself (c # rest) tr =
     (if writable (socket hself) tr
      then Inr (tr @ [RawLog (rawLog hself) ('' -->'' @ rest @ ''\<newline>''),
                      Write (socket hself) (rest @ ''\<newline>'')])
      else Inl (Fatal ''Error writing to socket'')) \<and>
   doCommand self ''/msg NickServ help'' tr =
     (if writable (socket self) tr
      then Inr (tr @ [RawLog (rawLog self) '' -->privmsg NickServ help\<newline>'',
                      Write (socket self) ''privmsg NickServ help\<newline>''])
      else Inl (Fatal ''Error writing to socket''))"
proof (intro conjI)
  show "doCommand self (c # rest) tr =
     (let line = (if first_token rest = ''msg'' then ''privmsg'' @ drop 3 rest else rest)
      in if writable (socket self) tr
         then Inr (tr @ [RawLog (rawLog self) ('' -->'' @ line @ ''\<newline>''),
                         Write (socket self) (line @ ''\<newline>'')])
         else Inl (Fatal ''Error writing to socket''))"
    by (simp only: doCommand_eq SendRaw_eq Let_def)
  show "hatcogd_doCommand hself (c # rest) tr =
     (if writable (socket hself) tr
      then Inr (tr @ [RawLog (rawLog hself) ('' -->'' @ rest @ ''\<newline>''),
                      Write (socket hself) (rest @ ''\<newline>'')])
      else Inl (Fatal ''Error writing to socket''))"
    by (simp add: hatcogd_doCommand_def SendRaw_eq)
  have "doCommand self ''/msg NickServ help'' tr = SendRaw self ''privmsg NickServ help'' tr"
    by (simp add: doCommand_eq first_token_def)
  then show "doCommand self ''/msg NickServ help'' tr =
     (if writable (socket self) tr
      then Inr (tr @ [RawLog (rawLog self) '' -->privmsg NickServ help\<newline>'',
                      Write (socket self) ''privmsg NickServ help\<newline>''])
      else Inl (Fatal ''Error writing to socket''))"
    by (simp add: SendRaw_eq)
qed

lemma doCommand_Nil: "doCommand self [] tr = Inl (Panic ''slice bounds out of range'')"
  by (simp add: doCommand_def)

lemma hatcogd_doCommand_Nil:
  "hatcogd_doCommand hself [] tr = Inl (Panic ''slice bounds out of range'')"
  by (simp add: hatcogd_doCommand_def)

text \<open>
  C10. \<open>doCommand\<close> (in both files) slices \<^verbatim>\<open>content[1:]\<close> before anything else:
  on the empty string it panics, also when it is reached through the manager; on an
  input of at least one byte it never panics, and it completes when the socket takes the
  write.
\<close>

theorem doCommand_slice_bounds:
  "(1 \<le> length content \<longrightarrow>
      (\<forall>msg. doCommand self content tr \<noteq> Inl (Panic msg)) \<and>
      (\<forall>msg. hatcogd_doCommand hself content tr \<noteq> Inl (Panic msg)) \<and>
      (writable (socket self) tr \<longrightarrow> (\<exists>tr'. doCommand self content tr = Inr tr')) \<and>
      (writable (socket hself) tr \<longrightarrow> (\<exists>tr'. hatcogd_doCommand hself content tr = Inr tr'))) \<and>
   doCommand self [] tr = Inl (Panic ''slice bounds out of range'') \<and>
   hatcogd_doCommand hself [] tr = Inl (Panic ''slice bounds out of range'') \<and>
   ExternalManager_doCommand manager network [] tr = Inl (Panic ''slice bounds out of range'')"
proof (intro conjI impI)
  assume "1 \<le> length content"
  then obtain c rest where c: "content = c # rest" by (cases content) auto
  show "\<forall>msg. doCommand self content tr \<noteq> Inl (Panic msg)"
    unfolding c doCommand_eq by (simp add: SendRaw_eq)
  show "\<forall>msg. hatcogd_doCommand hself content tr \<noteq> Inl (Panic msg)"
    unfolding c by (simp add: hatcogd_doCommand_def SendRaw_eq)
  show "\<exists>tr'. doCommand self content tr = Inr tr'" if "writable (socket self) tr"
    unfolding c doCommand_eq using that by (simp add: SendRaw_eq)
  show "\<exists>tr'. hatcogd_doCommand hself content tr = Inr tr'" if "writable (socket hself) tr"
    unfolding c using that by (simp add: hatcogd_doCommand_def SendRaw_eq)
next
  show "doCommand self [] tr = Inl (Panic ''slice bounds out of range'')"
    by (rule doCommand_Nil)
  show "hatcogd_doCommand hself [] tr = Inl (Panic ''slice bounds out of range'')"
    by (rule hatcogd_doCommand_Nil)
  show "ExternalManager_doCommand manager network [] tr = Inl (Panic ''slice bounds out of range'')"
    by (simp add: ExternalManager_doCommand_def doCommand_Nil split: option.splits)
qed

theorem doCommand_slice_bounds_witness:
  "1 \<le> length ''/join #go'' \<and> writable (socket demo_conn) ([] :: Line event list) \<and>
   doCommand demo_conn ''/join #go'' ([] :: Line event list)
     = Inr [RawLog ''server_raw.log'' '' -->join #go\<newline>'',
            Write demo_socket ''join #go\<newline>''] \<and>
   doCommand demo_conn ''/join #go'' ([] :: Line event list)
     \<noteq> Inl (Panic ''slice bounds out of range'') \<and>
   doCommand demo_conn [] ([] :: Line event list) = Inl (Panic ''slice bounds out of range'')"
proof -
  have w: "writable (socket demo_conn) ([] :: Line event list)" by (rule writable_Nil)
  have l: "1 \<le> length ''/join #go''" by simp
  note t = doCommand_slice_bounds [where content = "''/join #go''" and self = demo_conn
      and tr = "[] :: Line event list" and hself = demo_hatcogd_conn
      and manager = "NewExternalManager 0" and network = "''irc.example.org:6667''"]
  have e: "doCommand demo_conn ''/join #go'' ([] :: Line event list)
     = Inr [RawLog ''server_raw.log'' '' -->join #go\<newline>'',
            Write demo_socket ''join #go\<newline>'']"
    by (simp add: doCommand_eq first_token_def SendRaw_eq writable_Nil demo_conn_def)
  from t l have "doCommand demo_conn ''/join #go'' ([] :: Line event list)
      \<noteq> Inl (Panic ''slice bounds out of range'')"
    by blast
  moreover from t have "doCommand demo_conn [] ([] :: Line event list)
      = Inl (Panic ''slice bounds out of range'')"
    by blast
  ultimately show ?thesis using w l e by blast
qed

subsection \<open>Identifying with NickServ\<close>

lemma Identify_calls_identified:
  "isIdentified self \<Longrightarrow> Identify_calls self passwords tr = Inr (self, tr)"
  by (induction passwords) (simp_all add: Identify_def)

lemma Identify_first:
  "\<not> isIdentified self \<Longrightarrow>
   Identify self password tr =
     (if writable (socket self) tr
      then Inr (self\<lparr>isIdentified := True\<rparr>,
                tr @ [StdLog ''Identifying with NickServ\<newline>'',
                      RawLog (rawLog self) ('' -->PRIVMSG NickServ :identify '' @ password @ ''\<newline>''),
                      Write (socket self) (''PRIVMSG NickServ :identify '' @ password @ ''\<newline>'')])
      else Inl (Fatal ''Error writing to socket''))"
  by (simp add: Identify_def SendMessage_def SendRaw_eq writable_def)

text \<open>
  C6. On a connection that has not identified, the first of a sequence of \<open>Identify\<close>
  calls sends exactly one raw line, \<^verbatim>\<open>PRIVMSG NickServ :identify\<close> and the password,
  and sets \<open>isIdentified\<close>; every later call of the sequence sends nothing and changes
  nothing. On a connection that has identified, no call does anything, so the flag is
  never reset. The one body serves both files. The only other outcome of the first call
  is the end of the process on a failing write.
\<close>

theorem Identify_once:
  "(\<not> isIdentified self \<longrightarrow>
      Identify_calls self (password # later) tr =
        (if writable (socket self) tr
         then Inr (self\<lparr>isIdentified := True\<rparr>,
                   tr @ [StdLog ''Identifying with NickServ\<newline>'',
                         RawLog (rawLog self)
                           ('' -->PRIVMSG NickServ :identify '' @ password @ ''\<newline>''),
                         Write (socket self)
                           (''PRIVMSG NickServ :identify '' @ password @ ''\<newline>'')])
         else Inl (Fatal ''Error writing to socket''))) \<and>
   (isIdentified self \<longrightarrow> Identify_calls self (password # later) tr = Inr (self, tr))"
proof (intro conjI impI)
  assume n: "\<not> isIdentified self"
  show "Identify_calls self (password # later) tr =
        (if writable (socket self) tr
         then Inr (self\<lparr>isIdentified := True\<rparr>,
                   tr @ [StdLog ''Identifying with NickServ\<newline>'',
                         RawLog (rawLog self)
                           ('' -->PRIVMSG NickServ :identify '' @ password @ ''\<newline>''),
                         Write (socket self)
                           (''PRIVMSG NickServ :identify '' @ password @ ''\<newline>'')])
         else Inl (Fatal ''Error writing to socket''))"
    by (simp add: Identify_first [OF n] Identify_calls_identified)
next
  assume "isIdentified self"
  then show "Identify_calls self (password # later) tr = Inr (self, tr)"
    by (rule Identify_calls_identified)
qed

theorem Identify_once_witness:
  "\<not> isIdentified demo_conn \<and>
   Identify_calls demo_conn [''secret'', ''secret'', ''other''] ([] :: Line event list)
     = Inr (demo_conn\<lparr>isIdentified := True\<rparr>,
            [StdLog ''Identifying with NickServ\<newline>'',
             RawLog ''server_raw.log'' '' -->PRIVMSG NickServ :identify secret\<newline>'',
             Write demo_socket ''PRIVMSG NickServ :identify secret\<newline>''])"
  using Identify_once [of demo_conn "''secret''" "[''secret'', ''other'']" "[] :: Line event list"]
  by (simp add: writable_Nil demo_conn_def)

section \<open>Properties of the construction\<close>

lemma HasSuffix_append: "HasSuffix (a @ b) b"
  by (simp add: HasSuffix_def)

lemma port_of_HasSuffix: "HasSuffix server (port_of server)"
proof -
  let ?P = "\<lambda>c. c \<noteq> CHR '':''"
  have "rev (takeWhile ?P (rev server) @ dropWhile ?P (rev server)) = rev (rev server)"
    by (simp only: takeWhile_dropWhile_id)
  then have "rev (dropWhile ?P (rev server)) @ port_of server = server"
    by (simp only: rev_append rev_rev_ident port_of_def)
  then show ?thesis by (metis HasSuffix_append)
qed

lemma SendRaw_mono: "SendRaw self msg tr = Inr tr' \<Longrightarrow> set tr \<subseteq> set tr'"
  by (auto simp: SendRaw_eq split: if_splits)

lemma NewExternal_Inr:
  assumes "NewExternal env server ch tr = Inr (conn, tr')"
  shows "socket conn = \<lparr>fd = length tr + 2, remote = server, secure = HasSuffix server SSL_PORT\<rparr>"
    and "Dial (socket conn) \<in> set tr'"
  using assms by (auto simp: NewExternal_def Let_def split: if_splits)

lemma two_sends:
  assumes "(case A of Inl f \<Rightarrow> Inl f
            | Inr t \<Rightarrow> (case B t of Inl f \<Rightarrow> Inl f | Inr t' \<Rightarrow> Inr (c, t' @ [e])))
           = Inr (h, tr')"
  obtains t t' where "A = Inr t" "B t = Inr t'" "h = c" "tr' = t' @ [e]"
  using assms by (auto split: sum.splits)

lemma hatcogd_NewExternal_Inr:
  assumes "hatcogd_NewExternal env server nick nm ch tr = Inr (hconn, tr')"
  shows "socket hconn = \<lparr>fd = length tr + 2, remote = server, secure = HasSuffix server SSL_PORT\<rparr>"
    and "Dial (socket hconn) \<in> set tr'"
proof -
  define logf where "logf = HOME env @ LOG_DIR env @ ''server_raw.log''"
  define tr1 where
    "tr1 = tr @ [OpenLog logf, StdLog (Sprintln [''Logging raw IRC messages to:'', logf])]"
  define sock where
    "sock = \<lparr>fd = length tr1, remote = server, secure = HasSuffix server SSL_PORT\<rparr>"
  define c where
    "c = \<lparr>socket = sock, fromServer = ch, rawLog = logf, isIdentified = False,
           name = nm, isClosing = False\<rparr>"
  have e: "hatcogd_NewExternal env server nick nm ch tr =
      (if \<not> dial env (HasSuffix server SSL_PORT) server then Inl (Fatal ''Error on IRC connect:'')
       else case SendRaw c (''USER '' @ nick @ '' localhost localhost :'' @ nm)
                   (tr1 @ [Dial sock, Sleep, SetReadTimeout sock]) of
              Inl f \<Rightarrow> Inl f
            | Inr tr \<Rightarrow>
                (case SendRaw c (''NICK '' @ nick) tr of
                   Inl f \<Rightarrow> Inl f
                 | Inr tr \<Rightarrow> Inr (c, tr @ [Sleep])))"
    unfolding hatcogd_NewExternal_def Let_def c_def sock_def tr1_def logf_def by (rule refl)
  have d: "dial env (HasSuffix server SSL_PORT) server"
  proof (rule ccontr)
    assume "\<not> dial env (HasSuffix server SSL_PORT) server"
    then have "hatcogd_NewExternal env server nick nm ch tr = Inl (Fatal ''Error on IRC connect:'')"
      by (simp add: e)
    with assms show False by simp
  qed
  from d have "(case SendRaw c (''USER '' @ nick @ '' localhost localhost :'' @ nm)
                   (tr1 @ [Dial sock, Sleep, SetReadTimeout sock]) of
              Inl f \<Rightarrow> Inl f
            | Inr tr \<Rightarrow>
                (case SendRaw c (''NICK '' @ nick) tr of
                   Inl f \<Rightarrow> Inl f
                 | Inr tr \<Rightarrow> Inr (c, tr @ [Sleep]))) = Inr (hconn, tr')"
    using assms by (simp add: e)
  then obtain tr3 tr4 where
    s1: "SendRaw c (''USER '' @ nick @ '' localhost localhost :'' @ nm)
           (tr1 @ [Dial sock, Sleep, SetReadTimeout sock]) = Inr tr3" and
    s2: "SendRaw c (''NICK '' @ nick) tr3 = Inr tr4" and
    r: "hconn = c" "tr' = tr4 @ [Sleep]"
    by (rule two_sends)
  show "socket hconn = \<lparr>fd = length tr + 2, remote = server, secure = HasSuffix server SSL_PORT\<rparr>"
    using r by (simp add: c_def sock_def tr1_def)
  have "Dial sock \<in> set (tr1 @ [Dial sock, Sleep, SetReadTimeout sock])" by simp
  then have "Dial sock \<in> set tr4"
    using SendRaw_mono [OF s1] SendRaw_mono [OF s2] by blast
  then show "Dial (socket hconn) \<in> set tr'" using r by (simp add: c_def)
qed

lemma NewExternal_total:
  "NewExternal env server ch tr =
     (if dial env (HasSuffix server SSL_PORT) server
      then Inr (\<lparr>socket = \<lparr>fd = length tr + 2, remote = server, secure = HasSuffix server SSL_PORT\<rparr>,
                 fromServer = ch, rawLog = HOME env @ LOG_DIR env @ ''server_raw.log'',
                 isIdentified = False\<rparr>,
                tr @ [OpenLog (HOME env @ LOG_DIR env @ ''server_raw.log''),
                      StdLog (''Logging raw IRC messages to: '' @ HOME env @ LOG_DIR env @ ''server_raw.log\<newline>''),
                      Dial \<lparr>fd = length tr + 2, remote = server, secure = HasSuffix server SSL_PORT\<rparr>,
                      Sleep])
      else Inl (Fatal ''Error connecting to IRC server:''))"
  by (simp add: NewExternal_def Let_def)

text \<open>
  What construction does, in both files: the session is TLS exactly when the address, as
  a string, ends in \<^verbatim>\<open>6697\<close>. So an address whose port is 6697 always gets TLS.
\<close>

lemma NewExternal_tls:
  "(NewExternal env server ch tr = Inr (conn, tr') \<longrightarrow>
      remote (socket conn) = server \<and> Dial (socket conn) \<in> set tr' \<and>
      secure (socket conn) = HasSuffix server SSL_PORT \<and>
      (port_of server = SSL_PORT \<longrightarrow> secure (socket conn))) \<and>
   (hatcogd_NewExternal env server nick nm ch tr = Inr (hconn, tr') \<longrightarrow>
      remote (socket hconn) = server \<and> Dial (socket hconn) \<in> set tr' \<and>
      secure (socket hconn) = HasSuffix server SSL_PORT \<and>
      (port_of server = SSL_PORT \<longrightarrow> secure (socket hconn)))"
proof (intro conjI impI)
  assume a: "NewExternal env server ch tr = Inr (conn, tr')"
  note s = NewExternal_Inr [OF a]
  show "remote (socket conn) = server" "secure (socket conn) = HasSuffix server SSL_PORT"
    using s(1) by simp_all
  show "Dial (socket conn) \<in> set tr'" by (rule s(2))
  show "secure (socket conn)" if "port_of server = SSL_PORT"
    using s(1) port_of_HasSuffix [of server] that by simp
next
  assume a: "hatcogd_NewExternal env server nick nm ch tr = Inr (hconn, tr')"
  note s = hatcogd_NewExternal_Inr [OF a]
  show "remote (socket hconn) = server" "secure (socket hconn) = HasSuffix server SSL_PORT"
    using s(1) by simp_all
  show "Dial (socket hconn) \<in> set tr'" by (rule s(2))
  show "secure (socket hconn)" if "port_of server = SSL_PORT"
    using s(1) port_of_HasSuffix [of server] that by simp
qed

lemma NewExternal_tls_example:
  "NewExternal demo_env ''irc.example.org:6697'' 0 []
     = Inr (\<lparr>socket = \<lparr>fd = 2, remote = ''irc.example.org:6697'', secure = True\<rparr>,
              fromServer = 0, rawLog = ''/home/irc/.hatcog/server_raw.log'', isIdentified = False\<rparr>,
            [OpenLog ''/home/irc/.hatcog/server_raw.log'',
             StdLog ''Logging raw IRC messages to: /home/irc/.hatcog/server_raw.log\<newline>'',
             Dial \<lparr>fd = 2, remote = ''irc.example.org:6697'', secure = True\<rparr>, Sleep]) \<and>
   port_of ''irc.example.org:6697'' = SSL_PORT \<and>
   secure \<lparr>fd = 2, remote = ''irc.example.org:6697'', secure = True\<rparr>"
proof -
  have e: "NewExternal demo_env ''irc.example.org:6697'' 0 ([] :: Line event list)
     = Inr (\<lparr>socket = \<lparr>fd = 2, remote = ''irc.example.org:6697'', secure = True\<rparr>,
              fromServer = 0, rawLog = ''/home/irc/.hatcog/server_raw.log'', isIdentified = False\<rparr>,
            [OpenLog ''/home/irc/.hatcog/server_raw.log'',
             StdLog ''Logging raw IRC messages to: /home/irc/.hatcog/server_raw.log\<newline>'',
             Dial \<lparr>fd = 2, remote = ''irc.example.org:6697'', secure = True\<rparr>, Sleep])"
    by (simp add: NewExternal_def demo_env_def HasSuffix_def SSL_PORT_def Let_def)
  have p: "port_of ''irc.example.org:6697'' = SSL_PORT"
    by (simp add: port_of_def SSL_PORT_def)
  from NewExternal_tls [where env = demo_env and server = "''irc.example.org:6697''" and ch = 0
      and tr = "[] :: Line event list", THEN conjunct1, rule_format, OF e] p
  have "secure \<lparr>fd = 2, remote = ''irc.example.org:6697'', secure = True\<rparr>" by simp
  with e p show ?thesis by simp
qed

text \<open>
  C5. The claim wants TLS for port 6697 and plain TCP for every other port. The code
  means to test the port (\<open>SSL_PORT\<close> is the ``standard IRC SSL port'') and tests
  whether the whole address ends in \<^verbatim>\<open>6697\<close>. At the address
  \<^verbatim>\<open>irc.example.org:16697\<close> the port is 16697, and construction (in both files)
  dials with TLS.
\<close>

theorem NewExternal_suffix_16697:
  "port_of ''irc.example.org:16697'' = ''16697'' \<and>
   NewExternal demo_env ''irc.example.org:16697'' 0 []
     = Inr (\<lparr>socket = \<lparr>fd = 2, remote = ''irc.example.org:16697'', secure = True\<rparr>,
              fromServer = 0, rawLog = ''/home/irc/.hatcog/server_raw.log'',
              isIdentified = False\<rparr>,
            [OpenLog ''/home/irc/.hatcog/server_raw.log'',
             StdLog ''Logging raw IRC messages to: /home/irc/.hatcog/server_raw.log\<newline>'',
             Dial \<lparr>fd = 2, remote = ''irc.example.org:16697'', secure = True\<rparr>, Sleep]) \<and>
   hatcogd_NewExternal demo_env ''irc.example.org:16697'' ''gopher'' ''Gopher'' 0 []
     = Inr (\<lparr>socket = \<lparr>fd = 2, remote = ''irc.example.org:16697'', secure = True\<rparr>,
              fromServer = 0, rawLog = ''/home/irc/.hatcog/server_raw.log'',
              isIdentified = False, name = ''Gopher'', isClosing = False\<rparr>,
            [OpenLog ''/home/irc/.hatcog/server_raw.log'',
             StdLog ''Logging raw IRC messages to: /home/irc/.hatcog/server_raw.log\<newline>'',
             Dial \<lparr>fd = 2, remote = ''irc.example.org:16697'', secure = True\<rparr>, Sleep,
             SetReadTimeout \<lparr>fd = 2, remote = ''irc.example.org:16697'', secure = True\<rparr>,
             RawLog ''/home/irc/.hatcog/server_raw.log''
               '' -->USER gopher localhost localhost :Gopher\<newline>'',
             Write \<lparr>fd = 2, remote = ''irc.example.org:16697'', secure = True\<rparr>
               ''USER gopher localhost localhost :Gopher\<newline>'',
             RawLog ''/home/irc/.hatcog/server_raw.log'' '' -->NICK gopher\<newline>'',
             Write \<lparr>fd = 2, remote = ''irc.example.org:16697'', secure = True\<rparr>
               ''NICK gopher\<newline>'',
             Sleep])"
proof (intro conjI)
  show "port_of ''irc.example.org:16697'' = ''16697''"
    by (simp add: port_of_def)
  show "NewExternal demo_env ''irc.example.org:16697'' 0 []
     = Inr (\<lparr>socket = \<lparr>fd = 2, remote = ''irc.example.org:16697'', secure = True\<rparr>,
              fromServer = 0, rawLog = ''/home/irc/.hatcog/server_raw.log'',
              isIdentified = False\<rparr>,
            [OpenLog ''/home/irc/.hatcog/server_raw.log'',
             StdLog ''Logging raw IRC messages to: /home/irc/.hatcog/server_raw.log\<newline>'',
             Dial \<lparr>fd = 2, remote = ''irc.example.org:16697'', secure = True\<rparr>, Sleep])"
    by (simp add: NewExternal_def demo_env_def HasSuffix_def SSL_PORT_def Let_def)
  show "hatcogd_NewExternal demo_env ''irc.example.org:16697'' ''gopher'' ''Gopher'' 0 []
     = Inr (\<lparr>socket = \<lparr>fd = 2, remote = ''irc.example.org:16697'', secure = True\<rparr>,
              fromServer = 0, rawLog = ''/home/irc/.hatcog/server_raw.log'',
              isIdentified = False, name = ''Gopher'', isClosing = False\<rparr>,
            [OpenLog ''/home/irc/.hatcog/server_raw.log'',
             StdLog ''Logging raw IRC messages to: /home/irc/.hatcog/server_raw.log\<newline>'',
             Dial \<lparr>fd = 2, remote = ''irc.example.org:16697'', secure = True\<rparr>, Sleep,
             SetReadTimeout \<lparr>fd = 2, remote = ''irc.example.org:16697'', secure = True\<rparr>,
             RawLog ''/home/irc/.hatcog/server_raw.log''
               '' -->USER gopher localhost localhost :Gopher\<newline>'',
             Write \<lparr>fd = 2, remote = ''irc.example.org:16697'', secure = True\<rparr>
               ''USER gopher localhost localhost :Gopher\<newline>'',
             RawLog ''/home/irc/.hatcog/server_raw.log'' '' -->NICK gopher\<newline>'',
             Write \<lparr>fd = 2, remote = ''irc.example.org:16697'', secure = True\<rparr>
               ''NICK gopher\<newline>'',
             Sleep])"
    by (simp add: hatcogd_NewExternal_def demo_env_def HasSuffix_def SSL_PORT_def Let_def
        SendRaw_eq writable_def)
qed


section \<open>Properties of the manager\<close>

lemma Connect_present:
  "connection_at self addr = Some conn \<Longrightarrow> ExternalManager_Connect env self addr tr = Inr (self, tr)"
  by (simp add: ExternalManager_Connect_def)

lemma Connect_Inr:
  assumes "ExternalManager_Connect env self addr tr = Inr (self', tr')"
  shows "(\<exists>conn. connection_at self addr = Some conn \<and> self' = self \<and> tr' = tr) \<or>
         (\<exists>conn conns. connection_at self addr = None \<and> connections self = Some conns \<and>
            self' = self\<lparr>connections := Some (AList.update addr conn conns)\<rparr>)"
proof (cases "connection_at self addr")
  case (Some conn)
  with assms show ?thesis by (simp add: ExternalManager_Connect_def)
next
  case None
  obtain conn tr1 where n: "NewExternal env addr (ExternalManager.fromServer self) tr = Inr (conn, tr1)"
    using assms None
    by (cases "NewExternal env addr (ExternalManager.fromServer self) tr")
       (auto simp: ExternalManager_Connect_def)
  obtain conns where c: "connections self = Some conns"
    using assms None n
    by (cases "connections self") (auto simp: ExternalManager_Connect_def)
  have "self' = self\<lparr>connections := Some (AList.update addr conn conns)\<rparr>"
    using assms None n c by (simp add: ExternalManager_Connect_def)
  with None c show ?thesis by blast
qed

lemma count_update:
  "distinct (map fst conns) \<Longrightarrow>
   length (filter (\<lambda>entry. fst entry = addr) (AList.update addr conn conns)) = 1"
proof (induction conns)
  case Nil
  then show ?case by simp
next
  case (Cons p conns)
  obtain k v where p: "p = (k, v)" by (cases p)
  show ?case
  proof (cases "k = addr")
    case True
    then have "addr \<notin> fst ` set conns" using Cons.prems p by auto
    then have "filter (\<lambda>entry. fst entry = addr) conns = []"
      by (auto simp: filter_empty_conv)
    with True p show ?thesis by simp
  next
    case False
    with Cons p show ?thesis by simp
  qed
qed

lemma count_present:
  "distinct (map fst conns) \<Longrightarrow> map_of conns addr = Some conn \<Longrightarrow>
   length (filter (\<lambda>entry. fst entry = addr) conns) = 1"
proof (induction conns)
  case Nil
  then show ?case by simp
next
  case (Cons p conns)
  obtain k v where p: "p = (k, v)" by (cases p)
  show ?case
  proof (cases "k = addr")
    case True
    then have "addr \<notin> fst ` set conns" using Cons.prems p by auto
    then have "filter (\<lambda>entry. fst entry = addr) conns = []"
      by (auto simp: filter_empty_conv)
    with True p show ?thesis by simp
  next
    case False
    with Cons p show ?thesis by simp
  qed
qed

lemma demo_Connect:
  "ExternalManager_Connect demo_env (NewExternalManager 0) ''irc.example.org:6667'' []
     = Inr (demo_manager, demo_trace)"
  by (simp add: ExternalManager_Connect_def connection_at_def NewExternalManager_def
      NewExternal_total demo_env_def HasSuffix_def SSL_PORT_def demo_manager_def demo_trace_def)

text \<open>
  C4. When \<open>Connect\<close> has returned for an address, a second \<open>Connect\<close> for the same
  address changes neither the manager nor the trace: it dials nothing and creates no
  connection. The map then holds exactly one connection for the address.
\<close>

theorem Connect_twice:
  assumes "map_ok self" and "ExternalManager_Connect env self addr tr = Inr (self', tr')"
  shows "ExternalManager_Connect env self' addr tr' = Inr (self', tr') \<and>
         count_connections self' addr = 1 \<and> map_ok self'"
  using Connect_Inr [OF assms(2)]
proof (elim disjE exE conjE)
  fix conn
  assume a: "connection_at self addr = Some conn" "self' = self" "tr' = tr"
  then obtain conns where c: "connections self = Some conns" "map_of conns addr = Some conn"
    by (auto simp: connection_at_def split: option.splits)
  have "count_connections self addr = 1"
    using assms(1) c by (simp add: count_connections_def map_ok_def count_present)
  with a assms(1) show ?thesis by (simp add: Connect_present)
next
  fix conn conns
  assume a: "connection_at self addr = None" "connections self = Some conns"
    "self' = self\<lparr>connections := Some (AList.update addr conn conns)\<rparr>"
  have d: "distinct (map fst conns)" using assms(1) a(2) by (simp add: map_ok_def)
  have "connection_at self' addr = Some conn"
    using a(3) by (simp add: connection_at_def update_conv')
  then have "ExternalManager_Connect env self' addr tr' = Inr (self', tr')"
    by (rule Connect_present)
  moreover have "count_connections self' addr = 1"
    using a(3) d by (simp add: count_connections_def count_update)
  moreover have "map_ok self'"
    using a(3) d by (simp add: map_ok_def distinct_update)
  ultimately show ?thesis by blast
qed

theorem Connect_twice_witness:
  "map_ok (NewExternalManager 0) \<and>
   ExternalManager_Connect demo_env (NewExternalManager 0) ''irc.example.org:6667'' []
     = Inr (demo_manager, demo_trace) \<and>
   ExternalManager_Connect demo_env demo_manager ''irc.example.org:6667'' demo_trace
     = Inr (demo_manager, demo_trace) \<and>
   count_connections demo_manager ''irc.example.org:6667'' = 1"
proof -
  have m: "map_ok (NewExternalManager 0)"
    by (simp add: map_ok_def NewExternalManager_def)
  from Connect_twice [OF m demo_Connect] m demo_Connect show ?thesis by simp
qed

lemma close_each_eq:
  "close_each conns tr = tr @ map (\<lambda>entry. CloseSock (socket (snd entry))) conns"
  by (induction conns arbitrary: tr) (auto simp: Close_def)

text \<open>
  C9. \<open>Close\<close> of the manager closes the socket of every connection in the map and
  leaves the nil map. It has no failing branch. A second \<open>Close\<close> ranges over the nil
  map: it closes nothing and leaves the manager as it is.
\<close>

theorem ExternalManager_Close_twice:
  "connections (fst (ExternalManager_Close self tr)) = None \<and>
   snd (ExternalManager_Close self tr) =
     tr @ map (\<lambda>entry. CloseSock (socket (snd entry)))
            (case connections self of None \<Rightarrow> [] | Some conns \<Rightarrow> conns) \<and>
   (\<forall>conns. connections self = Some conns \<longrightarrow>
      (\<forall>entry \<in> set conns.
         CloseSock (socket (snd entry)) \<in> set (snd (ExternalManager_Close self tr)))) \<and>
   ExternalManager_Close (fst (ExternalManager_Close self tr)) tr'
     = (fst (ExternalManager_Close self tr), tr')"
proof (intro conjI allI impI ballI)
  show cleared: "connections (fst (ExternalManager_Close self tr)) = None"
    by (simp add: ExternalManager_Close_def)
  show closes: "snd (ExternalManager_Close self tr) =
     tr @ map (\<lambda>entry. CloseSock (socket (snd entry)))
            (case connections self of None \<Rightarrow> [] | Some conns \<Rightarrow> conns)"
    by (simp add: ExternalManager_Close_def close_each_eq split: option.splits)
  show "CloseSock (socket (snd entry)) \<in> set (snd (ExternalManager_Close self tr))"
    if "connections self = Some conns" "entry \<in> set conns" for conns entry
    using that by (simp add: closes)
  have "ExternalManager_Close (fst (ExternalManager_Close self tr)) tr'
      = ((fst (ExternalManager_Close self tr))\<lparr>connections := None\<rparr>, tr')"
    by (simp add: ExternalManager_Close_def)
  also have "(fst (ExternalManager_Close self tr))\<lparr>connections := None\<rparr>
      = fst (ExternalManager_Close self tr)"
    by (simp add: ExternalManager_Close_def)
  finally show "ExternalManager_Close (fst (ExternalManager_Close self tr)) tr'
      = (fst (ExternalManager_Close self tr), tr')" .
qed

theorem ExternalManager_Close_twice_witness:
  "connections demo_manager
     = Some [(''irc.example.org:6667'',
              \<lparr>socket = \<lparr>fd = 2, remote = ''irc.example.org:6667'', secure = False\<rparr>,
                 fromServer = 0, rawLog = ''/home/irc/.hatcog/server_raw.log'',
                 isIdentified = False\<rparr>)] \<and>
   CloseSock \<lparr>fd = 2, remote = ''irc.example.org:6667'', secure = False\<rparr>
     \<in> set (snd (ExternalManager_Close demo_manager demo_trace)) \<and>
   ExternalManager_Close demo_manager demo_trace
     = (demo_manager\<lparr>connections := None\<rparr>,
        demo_trace @ [CloseSock \<lparr>fd = 2, remote = ''irc.example.org:6667'', secure = False\<rparr>]) \<and>
   ExternalManager_Close (demo_manager\<lparr>connections := None\<rparr>)
       (demo_trace @ [CloseSock \<lparr>fd = 2, remote = ''irc.example.org:6667'', secure = False\<rparr>])
     = (demo_manager\<lparr>connections := None\<rparr>,
        demo_trace @ [CloseSock \<lparr>fd = 2, remote = ''irc.example.org:6667'', secure = False\<rparr>])"
proof -
  have c: "connections demo_manager
     = Some [(''irc.example.org:6667'',
              \<lparr>socket = \<lparr>fd = 2, remote = ''irc.example.org:6667'', secure = False\<rparr>,
                 fromServer = 0, rawLog = ''/home/irc/.hatcog/server_raw.log'',
                 isIdentified = False\<rparr>)]"
    by (simp add: demo_manager_def)
  have e: "ExternalManager_Close demo_manager demo_trace
     = (demo_manager\<lparr>connections := None\<rparr>,
        demo_trace @ [CloseSock \<lparr>fd = 2, remote = ''irc.example.org:6667'', secure = False\<rparr>])"
    by (simp add: ExternalManager_Close_def c Close_def)
  note t = ExternalManager_Close_twice [of demo_manager demo_trace
      "demo_trace @ [CloseSock \<lparr>fd = 2, remote = ''irc.example.org:6667'', secure = False\<rparr>]"]
  from t c have "CloseSock \<lparr>fd = 2, remote = ''irc.example.org:6667'', secure = False\<rparr>
     \<in> set (snd (ExternalManager_Close demo_manager demo_trace))"
    by fastforce
  moreover have "ExternalManager_Close (demo_manager\<lparr>connections := None\<rparr>)
       (demo_trace @ [CloseSock \<lparr>fd = 2, remote = ''irc.example.org:6667'', secure = False\<rparr>])
     = (demo_manager\<lparr>connections := None\<rparr>,
        demo_trace @ [CloseSock \<lparr>fd = 2, remote = ''irc.example.org:6667'', secure = False\<rparr>])"
    using t [THEN conjunct2, THEN conjunct2, THEN conjunct2] by (simp add: e)
  ultimately show ?thesis using c e by blast
qed

section \<open>Properties of the read loop\<close>

text \<open>
  C7, as the claim states it, fails on the earlier file: its loop has no branch for the
  end of the stream. The read's error is no \<^verbatim>\<open>net.Error\<close>, and the process ends
  without \<open>Close\<close> having been called.
\<close>

theorem hatcogd_Consume_EOF_panics:
  "hatcogd_Consume demo_env demo_hatcogd_conn [([], Some EOF)] []
     = Inl (Panic ''invalid memory address or nil pointer dereference'')"
  by (simp add: demo_hatcogd_conn_def)

text \<open>
  C7, amended. In the later file, a read that times out adds nothing to the logs and
  nothing to the channel (the loop only re-arms the deadline) and the loop goes on with
  the next read; a read that meets the end of the stream writes one line to the process
  log, closes the socket and ends the loop, whatever reads would follow, with nothing
  sent on the channel. In the earlier file, while \<open>isClosing\<close> is unset, a read that
  times out leaves the trace as it is and the loop goes on; a read that meets the end of
  the stream ends the process.
\<close>

theorem Consume_timeout_EOF:
  "Consume env self ((contentData, Some (NetError True)) # reads) tr
     = Consume env self reads (tr @ [SetReadDeadline (socket self)]) \<and>
   Consume env self [(contentData, Some (NetError True))] tr
     = Inr (Running, tr @ [SetReadDeadline (socket self)]) \<and>
   Consume env self ((contentData, Some EOF) # reads) tr
     = Inr (Returned, tr @ [SetReadDeadline (socket self),
                            StdLog ''IRC server closed connection.\<newline>'',
                            CloseSock (socket self)]) \<and>
   (\<not> isClosing hself \<longrightarrow>
      hatcogd_Consume env hself ((contentData, Some (NetError True)) # reads) tr
        = hatcogd_Consume env hself reads tr \<and>
      hatcogd_Consume env hself [(contentData, Some (NetError True))] tr = Inr (Running, tr) \<and>
      (\<exists>f. hatcogd_Consume env hself ((contentData, Some EOF) # reads) tr = Inl f))"
proof (intro conjI impI)
  show timeout: "Consume env self ((contentData, Some (NetError True)) # reads) tr
      = Consume env self reads (tr @ [SetReadDeadline (socket self)])" for reads
    by simp
  show "Consume env self [(contentData, Some (NetError True))] tr
      = Inr (Running, tr @ [SetReadDeadline (socket self)])"
    by (simp only: timeout Consume.simps(1))
  have "Close self (tr @ [SetReadDeadline (socket self),
                          StdLog ''IRC server closed connection.\<newline>''])
      = (if CloseSock (socket self) \<in> set tr then Some ''use of closed network connection''
         else None,
         tr @ [SetReadDeadline (socket self), StdLog ''IRC server closed connection.\<newline>'',
               CloseSock (socket self)])"
    by (simp add: Close_def)
  then show "Consume env self ((contentData, Some EOF) # reads) tr
      = Inr (Returned, tr @ [SetReadDeadline (socket self),
                             StdLog ''IRC server closed connection.\<newline>'',
                             CloseSock (socket self)])"
    by simp
next
  assume running: "\<not> isClosing hself"
  then show htimeout: "hatcogd_Consume env hself ((contentData, Some (NetError True)) # reads) tr
      = hatcogd_Consume env hself reads tr" for reads
    by simp
  from running show "hatcogd_Consume env hself [(contentData, Some (NetError True))] tr
      = Inr (Running, tr)"
    by (simp only: htimeout hatcogd_Consume.simps(1) if_False)
  from running
  have "hatcogd_Consume env hself ((contentData, Some EOF) # reads) tr
      = Inl (Panic ''invalid memory address or nil pointer dereference'')"
    by simp
  then show "\<exists>f. hatcogd_Consume env hself ((contentData, Some EOF) # reads) tr = Inl f" ..
qed

theorem Consume_timeout_EOF_witness:
  "\<not> isClosing demo_hatcogd_conn \<and>
   hatcogd_Consume demo_env demo_hatcogd_conn [([], Some (NetError True))] [] = Inr (Running, []) \<and>
   Consume demo_env demo_conn [([], Some (NetError True)), ([], Some EOF)] []
     = Inr (Returned, [SetReadDeadline demo_socket, SetReadDeadline demo_socket,
                       StdLog ''IRC server closed connection.\<newline>'',
                       CloseSock demo_socket])"
proof -
  have n: "\<not> isClosing demo_hatcogd_conn" by (simp add: demo_hatcogd_conn_def)
  note t = Consume_timeout_EOF [where hself = demo_hatcogd_conn and env = demo_env
      and contentData = "[]" and tr = "[]"]
  from t [where reads = "[]"] n
  have "hatcogd_Consume demo_env demo_hatcogd_conn [([], Some (NetError True))] [] = Inr (Running, [])"
    by blast
  moreover have "Consume demo_env demo_conn [([], Some (NetError True)), ([], Some EOF)] []
     = Inr (Returned, [SetReadDeadline demo_socket, SetReadDeadline demo_socket,
                       StdLog ''IRC server closed connection.\<newline>'',
                       CloseSock demo_socket])"
    using Consume_timeout_EOF [where self = demo_conn and env = demo_env and contentData = "[]"]
    by (simp add: demo_conn_def)
  ultimately show ?thesis using n by blast
qed

end
